theory Spec2Isabelle
  imports Complex_Main
begin

section \<open>Values of the program\<close>

text \<open>
  The script \<^verbatim>\<open>learnEnglish.py\<close> handles Python strings, the values that
  \<^verbatim>\<open>json.loads\<close> produces, and exceptions. A Python string is modelled as a
  \<^typ>\<open>string\<close>; a \<^typ>\<open>char\<close> stands for a code point below 256.
  A float is carried by its \<^verbatim>\<open>repr\<close>: the program never computes with a number
  it has parsed. A JSON object is an association list in insertion order, as Python's
  \<^verbatim>\<open>dict\<close> is. Python's \<^verbatim>\<open>None\<close> is \<open>JNull\<close>.
\<close>

datatype json =
    JNull
  | JBool bool
  | JInt int
  | JFloat string
  | JStr string
  | JArr "json list"
  | JObj "(string \<times> json) list"

text \<open>
  Exceptions are values. \<open>LibError\<close> is any exception that a library raises
  (\<^verbatim>\<open>requests\<close>, \<^verbatim>\<open>google-genai\<close>, \<^verbatim>\<open>json\<close>), named by its text.
  \<open>GeminiFailed n last\<close> is the \<^verbatim>\<open>RuntimeError\<close> of line 141, whose message
  is formatted from \<^verbatim>\<open>retries+1\<close> and from \<^verbatim>\<open>last_exc\<close>;
  \<open>AnkiConnectError\<close> is the \<^verbatim>\<open>RuntimeError\<close> of line 157.
\<close>

datatype pyerr =
    LibError string
  | ValueError string
  | AttributeError string
  | TypeError string
  | GeminiFailed int "pyerr option"
  | AnkiConnectError json

definition dq :: char where
  "dq = CHR 0x22"

definition nl :: char where
  "nl = CHR 0x0A"

subsection \<open>\<^verbatim>\<open>str.strip\<close>\<close>

text \<open>The code points below 256 for which \<^verbatim>\<open>str.isspace\<close> holds.\<close>

definition isspace :: "char \<Rightarrow> bool" where
  "isspace c = (of_char c \<in> {9, 10, 11, 12, 13, 28, 29, 30, 31, 32, 133, 160 :: nat})"

definition strip :: "string \<Rightarrow> string" where
  "strip s = rev (dropWhile isspace (rev (dropWhile isspace s)))"

subsection \<open>\<^verbatim>\<open>dict.get\<close> and item assignment\<close>

definition dict_get :: "('k \<times> 'v) list \<Rightarrow> 'k \<Rightarrow> 'v \<Rightarrow> 'v" where
  "dict_get d k dflt = (case map_of d k of None \<Rightarrow> dflt | Some v \<Rightarrow> v)"

fun dict_set :: "('k \<times> 'v) list \<Rightarrow> 'k \<Rightarrow> 'v \<Rightarrow> ('k \<times> 'v) list" where
  "dict_set [] k v = [(k, v)]"
| "dict_set (p # ps) k v = (if fst p = k then (k, v) # ps else p # dict_set ps k v)"

section \<open>The response extractor: \<^verbatim>\<open>find_json_in_text\<close>\<close>

text \<open>
  \<^verbatim>\<open>json.loads\<close> is the standard library's parser. It is a parameter \<open>loads\<close> of
  the model: a function from the text to the parsed value or to the exception raised.
\<close>

type_synonym loads = "string \<Rightarrow> pyerr + json"

text \<open>
  The scanner of lines 68 to 86. \<open>scan loads text rest i start depth\<close> is the
  \<^verbatim>\<open>for\<close> loop at index \<open>i\<close>, with \<open>rest\<close> the characters from \<open>i\<close> on.
  \<open>Some v\<close> is the \<^verbatim>\<open>return\<close> of line 81, \<open>None\<close> is the loop running to its end.
\<close>

fun scan :: "loads \<Rightarrow> string \<Rightarrow> string \<Rightarrow> nat \<Rightarrow> nat option \<Rightarrow> nat \<Rightarrow> json option" where
  "scan loads text [] i start depth = None"
| "scan loads text (ch # rest) i start depth =
     (if ch = CHR ''{'' then
        scan loads text rest (i + 1) (if start = None then Some i else start) (depth + 1)
      else if ch = CHR ''}'' then
        (let depth' = (if depth > 0 then depth - 1 else depth) in
         if depth' = 0 \<and> start \<noteq> None then
           (let candidate = take (i + 1 - the start) (drop (the start) text) in
            case loads candidate of
              Inr v \<Rightarrow> Some v
            | Inl e \<Rightarrow> scan loads text rest (i + 1) None 0)
         else scan loads text rest (i + 1) start depth')
      else scan loads text rest (i + 1) start depth)"

text \<open>
  \<^verbatim>\<open>re.findall(r"\{[^{}]+\}", text, flags=re.DOTALL)\<close>: the matches, left to right and
  not overlapping. At an opening brace the class \<^verbatim>\<open>[^{}]+\<close> takes the whole run of
  characters that are not braces; the match succeeds when the run is not empty and a
  closing brace follows it, and the search goes on after the match. Otherwise the
  search goes on at the next character.
\<close>

definition nobrace :: "char \<Rightarrow> bool" where
  "nobrace c = (c \<noteq> CHR ''{'' \<and> c \<noteq> CHR ''}'')"

function findall_nonnested :: "string \<Rightarrow> string list" where
  "findall_nonnested [] = []"
| "findall_nonnested (c # cs) =
     (if c = CHR ''{'' \<and> takeWhile nobrace cs \<noteq> [] \<and>
         dropWhile nobrace cs \<noteq> [] \<and> hd (dropWhile nobrace cs) = CHR ''}''
      then (c # takeWhile nobrace cs @ [CHR ''}'']) # findall_nonnested (tl (dropWhile nobrace cs))
      else findall_nonnested cs)"
  by pat_completeness auto
termination
proof (relation "measure length")
  show "wf (measure length)" by simp
next
  fix c :: char and cs :: string
  assume "c = CHR ''{'' \<and> takeWhile nobrace cs \<noteq> [] \<and>
         dropWhile nobrace cs \<noteq> [] \<and> hd (dropWhile nobrace cs) = CHR ''}''"
  have "length (tl (dropWhile nobrace cs)) \<le> length (dropWhile nobrace cs)" by simp
  also have "\<dots> \<le> length cs" by (rule length_dropWhile_le)
  finally show "(tl (dropWhile nobrace cs), c # cs) \<in> measure length" by simp
next
  fix c :: char and cs :: string
  show "(cs, c # cs) \<in> measure length" by simp
qed

text \<open>The loop of lines 90 to 94: the first match that parses.\<close>

fun first_parse :: "loads \<Rightarrow> string list \<Rightarrow> json option" where
  "first_parse loads [] = None"
| "first_parse loads (m # ms) =
     (case loads m of Inr v \<Rightarrow> Some v | Inl e \<Rightarrow> first_parse loads ms)"

definition parse_error_prefix :: string where
  "parse_error_prefix =
     ''Could not find a valid JSON object in model response.'' @ [nl] @
     ''Full response:'' @ [nl]"

definition find_json_in_text :: "loads \<Rightarrow> string \<Rightarrow> pyerr + json" where
  "find_json_in_text loads text0 =
     (let text = strip text0 in
      case loads text of
        Inr v \<Rightarrow> Inr v
      | Inl e \<Rightarrow>
          (case scan loads text text 0 None 0 of
             Some v \<Rightarrow> Inr v
           | None \<Rightarrow>
               (case first_parse loads (findall_nonnested text) of
                  Some v \<Rightarrow> Inr v
                | None \<Rightarrow> Inl (ValueError (parse_error_prefix @ text)))))"

text \<open>
  The candidates as the specification words them: reading left to right, an opening
  brace opens a span; the span ends at the closing brace where the nesting depth is back
  at zero; the search for the next span starts after it. A closing brace with nothing
  open is passed over. \<open>close_len s d\<close> is the number of characters of \<open>s\<close> up to and
  including the closing brace that brings the depth \<open>d\<close> back to zero.
\<close>

fun close_len :: "string \<Rightarrow> nat \<Rightarrow> nat option" where
  "close_len [] d = None"
| "close_len (c # cs) d =
     (if c = CHR ''{'' then map_option Suc (close_len cs (d + 1))
      else if c = CHR ''}'' then
        (if d \<le> 1 then Some 1 else map_option Suc (close_len cs (d - 1)))
      else map_option Suc (close_len cs d))"

function balanced_spans :: "string \<Rightarrow> string list" where
  "balanced_spans [] = []"
| "balanced_spans (c # cs) =
     (if c = CHR ''{'' then
        (case close_len cs 1 of
           None \<Rightarrow> []
         | Some n \<Rightarrow> (c # take n cs) # balanced_spans (drop n cs))
      else balanced_spans cs)"
  by pat_completeness auto
termination
  by (relation "measure length") auto

section \<open>The outside world\<close>

text \<open>
  What the script does to the outside is a list of events, oldest first: an HTTP POST
  to AnkiConnect (URL, JSON payload, timeout), a call of the Gemini client (model,
  prompt), a \<^verbatim>\<open>time.sleep\<close>, a log record. A log record is kept by its format
  string's arguments, not by its rendered text.
\<close>

datatype level = INFO | WARNING | ERROR

datatype log_msg =
    MsgGeminiFailed int int pyerr real
  | MsgSkipping string string
  | MsgProcessingRow int string
  | MsgGeneratedFields string "(string \<times> string) list"
  | MsgDryRun
  | MsgAddedNote json
  | MsgFailedWord string int pyerr
  | MsgNoteExistsError string pyerr

datatype event =
    EvPost string json int
  | EvGenerate string string
  | EvSleep real
  | EvLog level log_msg

text \<open>
  The outside answers as a function of everything that has happened so far.
  \<open>requests_post h url payload\<close> is \<^verbatim>\<open>requests.post\<close>, then
  \<^verbatim>\<open>raise_for_status\<close>, then \<^verbatim>\<open>resp.json()\<close>: the decoded body, or the
  exception that one of the three raises. \<open>generate_content h model prompt\<close> is
  \<^verbatim>\<open>client.models.generate_content(...)\<close> and its \<^verbatim>\<open>.text\<close>, or the exception
  raised on the way; a reply without text makes line 60 raise inside the same
  \<^verbatim>\<open>try\<close> and counts among these exceptions. \<open>json_loads\<close> and \<open>json_dumps\<close> are the standard library's
  \<^verbatim>\<open>json.loads\<close> and \<^verbatim>\<open>json.dumps(v, ensure_ascii=False)\<close>.
\<close>

record world =
  requests_post :: "event list \<Rightarrow> string \<Rightarrow> json \<Rightarrow> pyerr + json"
  generate_content :: "event list \<Rightarrow> string \<Rightarrow> string \<Rightarrow> pyerr + string"
  json_loads :: loads
  json_dumps :: "json \<Rightarrow> string"

definition ANKI_CONNECT_URL :: string where
  "ANKI_CONNECT_URL = ''http://localhost:8765''"

definition DEFAULT_GEMINI_MODEL :: string where
  "DEFAULT_GEMINI_MODEL = ''gemini-2.5-flash''"

section \<open>The generation client: \<^verbatim>\<open>query_gemini_for_word\<close>\<close>

definition prompt_for :: "string \<Rightarrow> string" where
  "prompt_for word =
     ''You are a concise, accurate dictionary assistant.'' @ [nl] @
     ''For the English word: '' @ [dq] @ word @ [dq] @ [nl, nl] @
     ''Return ONLY a single JSON object and nothing else with these exact keys:'' @ [nl] @
     ''  meaning: A concise English definition (one or two short sentences).'' @ [nl] @
     ''  translation: The Portuguese translation of the word (single word or short phrase).'' @ [nl] @
     ''  meaning_translation: The Portuguese translation of the meaning.'' @ [nl] @
     ''  example_phrase: One short natural English sentence that uses the word exactly as given.'' @ [nl] @
     ''  phrase_translation: The Portuguese translation of the example phrase.'' @ [nl, nl] @
     ''Make JSON well-formed and escape quotes as needed. Do NOT wrap the JSON in markdown, commentary, or text.''"

definition lexical_keys :: "string list" where
  "lexical_keys =
     [''meaning'', ''translation'', ''meaning_translation'', ''example_phrase'', ''phrase_translation'']"

text \<open>Lines 128 to 132: a string is stripped, any other value is dumped.\<close>

definition field_text :: "(json \<Rightarrow> string) \<Rightarrow> json \<Rightarrow> string" where
  "field_text dumps v = (case v of JStr s \<Rightarrow> strip s | _ \<Rightarrow> dumps v)"

text \<open>Lines 126 to 133, for a \<^verbatim>\<open>parsed\<close> that is a \<^verbatim>\<open>dict\<close>.\<close>

definition normalize_fields :: "(json \<Rightarrow> string) \<Rightarrow> (string \<times> json) list \<Rightarrow> (string \<times> string) list" where
  "normalize_fields dumps parsed =
     foldl (\<lambda>result k. dict_set result k (field_text dumps (dict_get parsed k (JStr ''''))))
       [] lexical_keys"

text \<open>
  The body of the \<^verbatim>\<open>try\<close> of lines 120 to 133, at the history \<open>h\<close> before the
  call. On a \<^verbatim>\<open>parsed\<close> that is not a \<^verbatim>\<open>dict\<close>, \<^verbatim>\<open>parsed.get\<close> raises
  \<^verbatim>\<open>AttributeError\<close>.
\<close>

definition gemini_attempt :: "world \<Rightarrow> event list \<Rightarrow> string \<Rightarrow> string \<Rightarrow> pyerr + (string \<times> string) list" where
  "gemini_attempt W h word model =
     (case generate_content W h model (prompt_for word) of
        Inl e \<Rightarrow> Inl e
      | Inr raw \<Rightarrow>
          (case find_json_in_text (json_loads W) raw of
             Inl e \<Rightarrow> Inl e
           | Inr parsed \<Rightarrow>
               (case parsed of
                  JObj kvs \<Rightarrow> Inr (normalize_fields (json_dumps W) kvs)
                | _ \<Rightarrow> Inl (AttributeError ''get''))))"

text \<open>
  The \<^verbatim>\<open>while\<close> loop of lines 117 to 138 and the \<^verbatim>\<open>raise\<close> of line 141.
  \<^verbatim>\<open>time.sleep\<close> raises \<^verbatim>\<open>ValueError\<close> on a negative length; raised inside the
  handler, it leaves the function.
\<close>

function gemini_loop ::
  "world \<Rightarrow> string \<Rightarrow> string \<Rightarrow> int \<Rightarrow> real \<Rightarrow> int \<Rightarrow> pyerr option \<Rightarrow> event list
     \<Rightarrow> (pyerr + (string \<times> string) list) \<times> event list" where
  "gemini_loop W word model retries backoff attempt last_exc h =
     (if attempt \<le> retries then
        (let attempt' = attempt + 1;
             h1 = h @ [EvGenerate model (prompt_for word)] in
         case gemini_attempt W h word model of
           Inr result \<Rightarrow> (Inr result, h1)
         | Inl e \<Rightarrow>
             (let wait = backoff * of_int attempt';
                  h2 = h1 @ [EvLog WARNING (MsgGeminiFailed attempt' (retries + 1) e wait)] in
              if wait < 0 then (Inl (ValueError ''sleep length must be non-negative''), h2)
              else gemini_loop W word model retries backoff attempt' (Some e) (h2 @ [EvSleep wait])))
      else (Inl (GeminiFailed (retries + 1) last_exc), h))"
  by pat_completeness auto
termination
  by (relation "measure (\<lambda>(W, word, model, retries, backoff, attempt, last_exc, h).
        nat (retries + 1 - attempt))") auto

definition query_gemini_for_word ::
  "world \<Rightarrow> string \<Rightarrow> string \<Rightarrow> int \<Rightarrow> real \<Rightarrow> event list
     \<Rightarrow> (pyerr + (string \<times> string) list) \<times> event list" where
  "query_gemini_for_word W word model retries backoff h =
     gemini_loop W word model retries backoff 0 None h"

section \<open>The note store client\<close>

text \<open>\<^verbatim>\<open>len\<close> of a parsed value: defined on strings, lists and dicts.\<close>

definition py_len :: "json \<Rightarrow> pyerr + nat" where
  "py_len v =
     (case v of
        JStr s \<Rightarrow> Inr (length s)
      | JArr xs \<Rightarrow> Inr (length xs)
      | JObj kvs \<Rightarrow> Inr (length kvs)
      | _ \<Rightarrow> Inl (TypeError ''len''))"

definition find_query :: "string \<Rightarrow> string \<Rightarrow> string \<Rightarrow> string" where
  "find_query word deck model =
     ''deck:'' @ [dq] @ deck @ [dq] @ '' note:'' @ [dq] @ model @ [dq] @
     '' Word:'' @ [dq] @ word @ [dq]"

definition find_payload :: "string \<Rightarrow> string \<Rightarrow> string \<Rightarrow> json" where
  "find_payload word deck model =
     JObj [(''action'', JStr ''findNotes''), (''version'', JInt 6),
           (''params'', JObj [(''query'', JStr (find_query word deck model))])]"

text \<open>The body of the \<^verbatim>\<open>try\<close> of lines 234 to 237.\<close>

definition note_exists_try :: "world \<Rightarrow> event list \<Rightarrow> json \<Rightarrow> pyerr + bool" where
  "note_exists_try W h payload =
     (case requests_post W h ANKI_CONNECT_URL payload of
        Inl e \<Rightarrow> Inl e
      | Inr body \<Rightarrow>
          (case body of
             JObj kvs \<Rightarrow>
               (case py_len (dict_get kvs ''result'' (JArr [])) of
                  Inl e \<Rightarrow> Inl e
                | Inr n \<Rightarrow> Inr (n > 0))
           | _ \<Rightarrow> Inl (AttributeError ''get'')))"

definition note_exists :: "world \<Rightarrow> string \<Rightarrow> string \<Rightarrow> string \<Rightarrow> event list \<Rightarrow> bool \<times> event list" where
  "note_exists W word deck model h =
     (let payload = find_payload word deck model;
          h1 = h @ [EvPost ANKI_CONNECT_URL payload 10] in
      case note_exists_try W h payload of
        Inr b \<Rightarrow> (b, h1)
      | Inl e \<Rightarrow> (False, h1 @ [EvLog ERROR (MsgNoteExistsError word e)]))"

definition add_payload :: "(string \<times> string) list \<Rightarrow> string \<Rightarrow> string \<Rightarrow> json" where
  "add_payload flds deck model =
     JObj [(''action'', JStr ''addNote''), (''version'', JInt 6),
           (''params'', JObj [(''note'',
              JObj [(''deckName'', JStr deck), (''modelName'', JStr model),
                    (''fields'', JObj (map (\<lambda>(k, v). (k, JStr v)) flds)),
                    (''tags'', JArr [JStr ''generated_by_gemini''])])])]"

definition add_anki_note ::
  "world \<Rightarrow> (string \<times> string) list \<Rightarrow> string \<Rightarrow> string \<Rightarrow> event list \<Rightarrow> (pyerr + json) \<times> event list" where
  "add_anki_note W flds deck model h =
     (let payload = add_payload flds deck model;
          h1 = h @ [EvPost ANKI_CONNECT_URL payload 10] in
      case requests_post W h ANKI_CONNECT_URL payload of
        Inl e \<Rightarrow> (Inl e, h1)
      | Inr ans \<Rightarrow>
          (case ans of
             JObj kvs \<Rightarrow>
               (if dict_get kvs ''error'' JNull \<noteq> JNull
                then (Inl (AnkiConnectError (dict_get kvs ''error'' JNull)), h1)
                else (Inr (dict_get kvs ''result'' JNull), h1))
           | _ \<Rightarrow> (Inl (AttributeError ''get''), h1)))"

section \<open>The pipeline driver: \<^verbatim>\<open>process_csv_file\<close>\<close>

definition note_fields :: "string \<Rightarrow> (string \<times> string) list \<Rightarrow> (string \<times> string) list" where
  "note_fields word gemini =
     [(''Word'', word),
      (''Meaning'', dict_get gemini ''meaning'' ''''),
      (''translation'', dict_get gemini ''translation'' ''''),
      (''Meaning Translation'', dict_get gemini ''meaning_translation'' ''''),
      (''example phrase'', dict_get gemini ''example_phrase'' ''''),
      (''phrase translation'', dict_get gemini ''phrase_translation'' '''')]"

definition shorten :: "string \<Rightarrow> string" where
  "shorten v = (if length v > 80 then take 80 v @ ''...'' else v)"

text \<open>
  Lines 178 to 199, for a word whose note does not exist yet: the \<^verbatim>\<open>try\<close>, its
  handler, and the pause of line 199. The generation client is called with its default
  \<^verbatim>\<open>retries=2\<close> and \<^verbatim>\<open>backoff=1.0\<close>.
\<close>

definition generate_and_add ::
  "world \<Rightarrow> string \<Rightarrow> string \<Rightarrow> string \<Rightarrow> bool \<Rightarrow> int \<Rightarrow> string \<Rightarrow> event list \<Rightarrow> event list" where
  "generate_and_add W deck model_name gemini_model dry_run row_number word h =
     (let h2 = h @ [EvLog INFO (MsgProcessingRow row_number word)];
          h3 =
            (case query_gemini_for_word W word gemini_model 2 1 h2 of
               (Inl e, h') \<Rightarrow> h' @ [EvLog ERROR (MsgFailedWord word row_number e)]
             | (Inr gemini, h') \<Rightarrow>
                 (let flds = note_fields word gemini;
                      h'' = h' @ [EvLog INFO (MsgGeneratedFields word
                                     (map (\<lambda>(k, v). (k, shorten v)) flds))] in
                  if dry_run then h'' @ [EvLog INFO MsgDryRun]
                  else
                    (case add_anki_note W flds deck model_name h'' of
                       (Inl e, h4) \<Rightarrow> h4 @ [EvLog ERROR (MsgFailedWord word row_number e)]
                     | (Inr result, h4) \<Rightarrow> h4 @ [EvLog INFO (MsgAddedNote result)])))
      in h3 @ [EvSleep 1])"

text \<open>
  One turn of the \<^verbatim>\<open>for\<close> loop of line 165, \<open>row_number\<close> already incremented.
  Each \<^verbatim>\<open>continue\<close> of lines 168, 171 and 176 ends the turn at once.
\<close>

definition process_row ::
  "world \<Rightarrow> string \<Rightarrow> string \<Rightarrow> string \<Rightarrow> bool \<Rightarrow> int \<Rightarrow> string list \<Rightarrow> event list \<Rightarrow> event list" where
  "process_row W deck model_name gemini_model dry_run row_number row h =
     (case row of
        [] \<Rightarrow> h
      | cell # _ \<Rightarrow>
          (let word = strip cell in
           if word = [] then h
           else
             (case note_exists W word deck model_name h of
                (True, h1) \<Rightarrow> h1 @ [EvLog INFO (MsgSkipping word deck)]
              | (False, h1) \<Rightarrow>
                  generate_and_add W deck model_name gemini_model dry_run row_number word h1)))"

fun process_rows ::
  "world \<Rightarrow> string \<Rightarrow> string \<Rightarrow> string \<Rightarrow> bool \<Rightarrow> int \<Rightarrow> string list list \<Rightarrow> event list \<Rightarrow> event list" where
  "process_rows W deck model_name gemini_model dry_run row_number [] h = h"
| "process_rows W deck model_name gemini_model dry_run row_number (row # rows) h =
     process_rows W deck model_name gemini_model dry_run (row_number + 1) rows
       (process_row W deck model_name gemini_model dry_run (row_number + 1) row h)"

text \<open>
  \<^verbatim>\<open>process_csv_file\<close> on the rows that \<^verbatim>\<open>csv.reader\<close> yields, after the events
  \<open>h\<close> that came before.
\<close>

definition process_csv_file ::
  "world \<Rightarrow> string list list \<Rightarrow> string \<Rightarrow> string \<Rightarrow> string \<Rightarrow> bool \<Rightarrow> event list \<Rightarrow> event list" where
  "process_csv_file W rows deck model_name gemini_model dry_run h =
     process_rows W deck model_name gemini_model dry_run 0 rows h"

section \<open>Vocabulary of the properties\<close>

text \<open>\<^verbatim>\<open>isinstance(v, dict)\<close>.\<close>

definition is_dict :: "json \<Rightarrow> bool" where
  "is_dict v = (case v of JObj kvs \<Rightarrow> True | _ \<Rightarrow> False)"

text \<open>
  A balanced brace span: it opens with a brace, and the depth is back at zero at its
  last character and not before.
\<close>

definition balanced_span :: "string \<Rightarrow> bool" where
  "balanced_span s =
     (case s of [] \<Rightarrow> False | c # cs \<Rightarrow> c = CHR ''{'' \<and> close_len cs 1 = Some (length cs))"

text \<open>\<open>is_infix t m\<close>: the text \<open>t\<close> occurs in \<open>m\<close>.\<close>

fun is_infix :: "string \<Rightarrow> string \<Rightarrow> bool" where
  "is_infix t [] = (t = [])"
| "is_infix t (c # cs) = (take (length t) (c # cs) = t \<or> is_infix t cs)"

text \<open>Kinds of events.\<close>

fun is_generate :: "event \<Rightarrow> bool" where
  "is_generate (EvGenerate m p) = True"
| "is_generate _ = False"

fun is_sleep :: "event \<Rightarrow> bool" where
  "is_sleep (EvSleep w) = True"
| "is_sleep _ = False"

text \<open>A POST whose payload names the action \<open>a\<close>.\<close>

definition is_post_action :: "string \<Rightarrow> event \<Rightarrow> bool" where
  "is_post_action a ev =
     (case ev of
        EvPost url payload t \<Rightarrow>
          (case payload of JObj kvs \<Rightarrow> map_of kvs ''action'' = Some (JStr a) | _ \<Rightarrow> False)
      | _ \<Rightarrow> False)"

definition is_add_note :: "event \<Rightarrow> bool" where
  "is_add_note ev = is_post_action ''addNote'' ev"

definition is_find_notes :: "event \<Rightarrow> bool" where
  "is_find_notes ev = is_post_action ''findNotes'' ev"


subsection \<open>Concrete inputs\<close>

text \<open>
  The text \<^verbatim>\<open>{"meaning": " brave ", "translation": null}\<close>, the value it parses
  to, and a reply of the backend that wraps it in commentary; \<^verbatim>\<open>json.loads\<close> and
  \<^verbatim>\<open>json.dumps\<close> tabulated on what the examples below hand to them.
\<close>

definition fx_obj_text :: string where
  "fx_obj_text =
     ''{'' @ [dq] @ ''meaning'' @ [dq] @ '': '' @ [dq] @ '' brave '' @ [dq] @ '', '' @
     [dq] @ ''translation'' @ [dq] @ '': null}''"

definition fx_obj :: json where
  "fx_obj = JObj [(''meaning'', JStr '' brave ''), (''translation'', JNull)]"

definition fx_reply :: string where
  "fx_reply = ''Sure: '' @ fx_obj_text @ '' ok ''"

definition fx_loads :: loads where
  "fx_loads s = (if s = fx_obj_text then Inr fx_obj
                 else if s = ''42'' then Inr (JInt 42)
                 else Inl (LibError ''JSONDecodeError''))"

definition fx_dumps :: "json \<Rightarrow> string" where
  "fx_dumps v = (if v = JNull then ''null''
                 else if v = JBool True then ''true''
                 else if v = JBool False then ''false''
                 else [])"

text \<open>
  Three worlds. In \<open>fx_world_down\<close> every call of the backend and of the note store
  raises; the backend's third call raises another error than the first two. In
  \<open>fx_world_ok\<close> the note store finds nothing and accepts every note, and the backend
  answers with commentary around the object above. In \<open>fx_world_dup\<close> the note store
  finds a note for every word.
\<close>

definition fx_world_down :: world where
  "fx_world_down =
     \<lparr> requests_post = (\<lambda>h url payload. Inl (LibError ''ConnectionError'')),
       generate_content = (\<lambda>h model prompt.
          Inl (LibError (if length (filter is_generate h) = 2
                         then ''third call failed'' else ''earlier call failed''))),
       json_loads = fx_loads,
       json_dumps = fx_dumps \<rparr>"

definition fx_world_ok :: world where
  "fx_world_ok =
     \<lparr> requests_post = (\<lambda>h url payload.
          if is_add_note (EvPost url payload 10)
          then Inr (JObj [(''result'', JInt 1496198395707), (''error'', JNull)])
          else Inr (JObj [(''result'', JArr []), (''error'', JNull)])),
       generate_content = (\<lambda>h model prompt. Inr fx_reply),
       json_loads = fx_loads,
       json_dumps = fx_dumps \<rparr>"

definition fx_world_dup :: world where
  "fx_world_dup =
     \<lparr> requests_post = (\<lambda>h url payload.
          Inr (JObj [(''result'', JArr [JInt 1496198395707]), (''error'', JNull)])),
       generate_content = (\<lambda>h model prompt. Inl (LibError ''ServerError'')),
       json_loads = fx_loads,
       json_dumps = fx_dumps \<rparr>"

section \<open>Properties of the response extractor\<close>

lemma close_len_bounds: "close_len s d = Some n \<Longrightarrow> 0 < n \<and> n \<le> length s"
  by (induction s arbitrary: d n) (auto split: if_splits)

lemma close_len_append: "close_len s d = Some n \<Longrightarrow> close_len (s @ t) d = Some n"
  by (induction s arbitrary: d n) (auto split: if_splits)

lemma scan_open:
  "length pre = i \<Longrightarrow> s < i \<Longrightarrow> 0 < d \<Longrightarrow>
   scan loads (pre @ rest) rest i (Some s) d =
     (case close_len rest d of
        None \<Rightarrow> None
      | Some n \<Rightarrow>
          (case loads (take (i + n - s) (drop s (pre @ rest))) of
             Inr v \<Rightarrow> Some v
           | Inl e \<Rightarrow> scan loads (pre @ rest) (drop n rest) (i + n) None 0))"
proof (induction rest arbitrary: pre i d)
  case Nil
  then show ?case by simp
next
  case (Cons c cs)
  have len: "length (pre @ [c]) = i + 1" using Cons.prems by simp
  have lt: "s < i + 1" using Cons.prems by simp
  note IH = Cons.IH [OF len lt, unfolded append_assoc append_Cons append_Nil]
  show ?case
  proof (cases "c = CHR ''{''")
    case True
    then show ?thesis using IH [of "d + 1"]
      by (simp split: option.splits cong: sum.case_cong)
  next
    case nopen: False
    show ?thesis
    proof (cases "c = CHR ''}''")
      case True
      show ?thesis
      proof (cases "d \<le> 1")
        case True
        then have "d = 1" using Cons.prems by simp
        then show ?thesis using \<open>c = CHR ''}''\<close>
          by (simp cong: sum.case_cong)
      next
        case False
        then have "0 < d - 1" by simp
        from IH [OF this] False \<open>c = CHR ''}''\<close> show ?thesis
          by (simp split: option.splits cong: sum.case_cong)
      qed
    next
      case False
      then show ?thesis using nopen IH [OF \<open>0 < d\<close>]
        by (simp split: option.splits cong: sum.case_cong)
    qed
  qed
qed

lemma scan_refines:
  "length pre = i \<Longrightarrow>
   scan loads (pre @ rest) rest i None 0 = first_parse loads (balanced_spans rest)"
proof (induction rest arbitrary: pre i rule: balanced_spans.induct)
  case 1
  then show ?case by simp
next
  case (2 c cs)
  have len: "length (pre @ [c]) = i + 1" using "2.prems" by simp
  show ?case
  proof (cases "c = CHR ''{''")
    case True
    have op: "scan loads (pre @ c # cs) cs (i + 1) (Some i) 1 =
      (case close_len cs 1 of
        None \<Rightarrow> None
      | Some n \<Rightarrow>
          (case loads (take (i + 1 + n - i) (drop i (pre @ c # cs))) of
             Inr v \<Rightarrow> Some v
           | Inl e \<Rightarrow> scan loads (pre @ c # cs) (drop n cs) (i + 1 + n) None 0))"
      using scan_open [OF len, of i 1 loads cs]
      by (simp cong: sum.case_cong option.case_cong)
    show ?thesis
    proof (cases "close_len cs 1")
      case None
      then show ?thesis using True op by simp
    next
      case (Some n)
      then have n: "n \<le> length cs" using close_len_bounds by blast
      have cand: "take (i + 1 + n - i) (drop i (pre @ c # cs)) = c # take n cs"
        using "2.prems" by simp
      have len2: "length (pre @ c # take n cs) = i + 1 + n"
        using "2.prems" n by simp
      have "scan loads ((pre @ c # take n cs) @ drop n cs) (drop n cs) (i + 1 + n) None 0 =
            first_parse loads (balanced_spans (drop n cs))"
        using "2.IH"(1) [OF True Some len2] .
      then have rest: "scan loads (pre @ c # cs) (drop n cs) (i + 1 + n) None 0 =
            first_parse loads (balanced_spans (drop n cs))"
        by simp
      show ?thesis using True op Some cand rest
        by (simp split: sum.splits)
    qed
  next
    case False
    have "scan loads ((pre @ [c]) @ cs) cs (i + 1) None 0 = first_parse loads (balanced_spans cs)"
      using "2.IH"(2) [OF False len] .
    then show ?thesis using False by auto
  qed
qed

lemma first_parse_all_fail:
  "\<forall>m \<in> set ms. \<exists>e. loads m = Inl e \<Longrightarrow> first_parse loads ms = None"
  by (induction ms) auto

lemma balanced_spans_skip:
  "CHR ''{'' \<notin> set pre \<Longrightarrow> balanced_spans (pre @ s) = balanced_spans s"
  by (induction pre) auto

lemma strip_around:
  assumes "obj \<noteq> []" "\<not> isspace (hd obj)" "\<not> isspace (last obj)"
  shows "strip (pre @ obj @ post) =
         dropWhile isspace pre @ obj @ rev (dropWhile isspace (rev post))"
proof -
  have a: "dropWhile isspace (obj @ post) = obj @ post"
    using assms by (cases obj) auto
  have b: "dropWhile isspace (pre @ obj @ post) = dropWhile isspace pre @ obj @ post"
    using a by (simp add: dropWhile_append)
  have c: "dropWhile isspace (rev obj @ rev (dropWhile isspace pre)) = rev obj @ rev (dropWhile isspace pre)"
    using assms by (cases "rev obj") (auto simp: hd_rev)
  have "dropWhile isspace (rev post @ rev obj @ rev (dropWhile isspace pre)) =
        dropWhile isspace (rev post) @ rev obj @ rev (dropWhile isspace pre)"
    using c by (simp add: dropWhile_append)
  then show ?thesis using b by (simp add: strip_def)
qed

lemma close_len_closes:
  "close_len s d = Some n \<Longrightarrow> 0 < n \<and> n \<le> length s \<and> s ! (n - 1) = CHR ''}''"
proof (induction s arbitrary: d n)
  case Nil
  then show ?case by simp
next
  case (Cons c cs)
  show ?case
  proof (cases "c = CHR ''}'' \<and> d \<le> 1")
    case True
    then show ?thesis using Cons.prems by auto
  next
    case False
    then obtain d' m where m: "close_len cs d' = Some m" and n: "n = Suc m"
      using Cons.prems by (auto split: if_splits)
    from Cons.IH [OF m] have "0 < m" "m \<le> length cs" "cs ! (m - 1) = CHR ''}''"
      by simp_all
    then show ?thesis using n by (cases m) simp_all
  qed
qed

lemma close_len_last:
  assumes "close_len s d = Some (length s)"
  shows "s \<noteq> [] \<and> last s = CHR ''}''"
proof -
  from close_len_closes [OF assms] have "s \<noteq> []" "s ! (length s - 1) = CHR ''}''"
    by auto
  then show ?thesis by (simp add: last_conv_nth)
qed

lemma balanced_span_shape:
  assumes "balanced_span obj"
  shows "obj \<noteq> []" "hd obj = CHR ''{''" "last obj = CHR ''}''"
    "close_len (tl obj) 1 = Some (length (tl obj))"
  using assms close_len_last [of "tl obj" 1]
  by (auto simp: balanced_span_def split: list.splits)

lemma balanced_spans_first:
  assumes "balanced_span obj" "CHR ''{'' \<notin> set pre"
  shows "balanced_spans (pre @ obj @ post) = obj # balanced_spans post"
proof -
  obtain cs where obj: "obj = CHR ''{'' # cs" and cl: "close_len cs 1 = Some (length cs)"
    using assms(1) by (auto simp: balanced_span_def split: list.splits)
  have "close_len (cs @ post) 1 = Some (length cs)"
    using close_len_append [OF cl] .
  then have "balanced_spans (obj @ post) = obj # balanced_spans post"
    using obj by simp
  then show ?thesis using balanced_spans_skip [OF assms(2)] by simp
qed

lemma scan_top: "scan loads t t 0 None 0 = first_parse loads (balanced_spans t)"
  using scan_refines [of "[]" 0 loads t] by simp

text \<open>
  Claim C4. Let the text be commentary, then a balanced brace span \<open>obj\<close>, then more
  text, where the commentary before the span opens no brace, the whole trimmed text does
  not parse and the span does. Then \<^verbatim>\<open>find_json_in_text\<close> returns what the span
  parses to. And on every text \<open>t\<close> the scanner returns the first candidate that parses
  among the balanced spans of \<open>t\<close>, taken left to right, each search starting afresh
  after the span before it.
\<close>

theorem extractor_tolerance:
  assumes "balanced_span obj" and "CHR ''{'' \<notin> set pre"
    and "loads (strip (pre @ obj @ post)) = Inl e" and "loads obj = Inr v"
  shows "find_json_in_text loads (pre @ obj @ post) = Inr v \<and>
         scan loads t t 0 None 0 = first_parse loads (balanced_spans t)"
proof -
  have sp: "\<not> isspace (CHR ''{'')" "\<not> isspace (CHR ''}'')"
    by (simp_all add: isspace_def)
  note shape = balanced_span_shape [OF assms(1)]
  have st: "strip (pre @ obj @ post) =
        dropWhile isspace pre @ obj @ rev (dropWhile isspace (rev post))"
    using strip_around [of obj pre post] shape sp by simp
  have "CHR ''{'' \<notin> set (dropWhile isspace pre)"
    using assms(2) set_dropWhileD by fastforce
  then have "balanced_spans (strip (pre @ obj @ post)) =
        obj # balanced_spans (rev (dropWhile isspace (rev post)))"
    using st balanced_spans_first [OF assms(1)] by simp
  then have "scan loads (strip (pre @ obj @ post)) (strip (pre @ obj @ post)) 0 None 0 = Some v"
    using assms(4) by (simp add: scan_top)
  then have "find_json_in_text loads (pre @ obj @ post) = Inr v"
    using assms(3) by (simp add: find_json_in_text_def)
  then show ?thesis using scan_top by simp
qed

text \<open>The text \<^verbatim>\<open>Sure: {"meaning": " brave ", "translation": null} ok\<close>.\<close>

theorem extractor_tolerance_witness:
  "balanced_span fx_obj_text \<and> CHR ''{'' \<notin> set ''Sure: '' \<and>
   fx_loads (strip (''Sure: '' @ fx_obj_text @ '' ok '')) = Inl (LibError ''JSONDecodeError'') \<and>
   fx_loads fx_obj_text = Inr fx_obj \<and>
   find_json_in_text fx_loads (''Sure: '' @ fx_obj_text @ '' ok '') = Inr fx_obj \<and>
   scan fx_loads ''a{b}'' ''a{b}'' 0 None 0 = first_parse fx_loads (balanced_spans ''a{b}'')"
proof -
  have 1: "balanced_span fx_obj_text"
    by (simp add: balanced_span_def fx_obj_text_def dq_def)
  have 2: "CHR ''{'' \<notin> set ''Sure: ''" by simp
  have 3: "fx_loads (strip (''Sure: '' @ fx_obj_text @ '' ok '')) = Inl (LibError ''JSONDecodeError'')"
    by (simp add: fx_loads_def strip_def isspace_def fx_obj_text_def dq_def)
  have 4: "fx_loads fx_obj_text = Inr fx_obj"
    by (simp add: fx_loads_def)
  show ?thesis
    using 1 2 3 4
      extractor_tolerance [of fx_obj_text "''Sure: ''" fx_loads "'' ok ''"
        "LibError ''JSONDecodeError''" "fx_obj" "''a{b}''"]
    by simp
qed

text \<open>
  Claim C7, as amended. When the trimmed text does not parse, no balanced span of it
  parses and no match of the pattern parses, \<^verbatim>\<open>find_json_in_text\<close> raises the
  \<^verbatim>\<open>ValueError\<close> of line 96, whose message ends with the trimmed text: line 60 has
  rebound \<^verbatim>\<open>text\<close> to \<^verbatim>\<open>text.strip()\<close>.
\<close>

theorem extractor_failure:
  assumes "loads (strip text) = Inl e"
    and "\<forall>c \<in> set (balanced_spans (strip text)). \<exists>e'. loads c = Inl e'"
    and "\<forall>m \<in> set (findall_nonnested (strip text)). \<exists>e'. loads m = Inl e'"
  shows "find_json_in_text loads text = Inl (ValueError (parse_error_prefix @ strip text))"
  using assms first_parse_all_fail [of _ loads]
  by (simp add: find_json_in_text_def scan_top)

text \<open>
  The text \<^verbatim>\<open>" see {x} "\<close>: its one balanced span and its one match of the
  pattern are both \<^verbatim>\<open>{x}\<close>, which does not parse.
\<close>

theorem extractor_failure_witness:
  "fx_loads (strip '' see {x} '') = Inl (LibError ''JSONDecodeError'') \<and>
   balanced_spans (strip '' see {x} '') = [''{x}''] \<and>
   findall_nonnested (strip '' see {x} '') = [''{x}''] \<and>
   fx_loads ''{x}'' = Inl (LibError ''JSONDecodeError'') \<and>
   find_json_in_text fx_loads '' see {x} '' =
     Inl (ValueError (parse_error_prefix @ ''see {x}''))"
proof -
  have s: "strip '' see {x} '' = ''see {x}''"
    by (simp add: strip_def isspace_def)
  have 1: "fx_loads (strip '' see {x} '') = Inl (LibError ''JSONDecodeError'')"
    by (simp add: s fx_loads_def fx_obj_text_def)
  have 0: "fx_loads ''{x}'' = Inl (LibError ''JSONDecodeError'')"
    by (simp add: fx_loads_def fx_obj_text_def)
  have b: "balanced_spans (strip '' see {x} '') = [''{x}'']"
    by (simp add: s)
  have f: "findall_nonnested (strip '' see {x} '') = [''{x}'']"
    by (simp add: s nobrace_def)
  have 2: "\<forall>c \<in> set (balanced_spans (strip '' see {x} '')). \<exists>e'. fx_loads c = Inl e'"
    using 0 b by simp
  have 3: "\<forall>m \<in> set (findall_nonnested (strip '' see {x} '')). \<exists>e'. fx_loads m = Inl e'"
    using 0 f by simp
  show ?thesis
    using 0 1 b f 2 3
      extractor_failure [of fx_loads "'' see {x} ''" "LibError ''JSONDecodeError''"]
    by (simp add: s)
qed

text \<open>
  Claim C7 as it is stated asks for the original text in the error. On the text
  \<^verbatim>\<open>" no json here "\<close> nothing parses, and the message holds the trimmed text; the
  original text, with its blanks, does not occur in it.
\<close>

theorem extractor_failure_original_text_counterexample:
  "fx_loads (strip '' no json here '') = Inl (LibError ''JSONDecodeError'') \<and>
   balanced_spans (strip '' no json here '') = [] \<and>
   findall_nonnested (strip '' no json here '') = [] \<and>
   find_json_in_text fx_loads '' no json here '' =
     Inl (ValueError (parse_error_prefix @ ''no json here'')) \<and>
   \<not> is_infix '' no json here '' (parse_error_prefix @ ''no json here'')"
  by (simp add: find_json_in_text_def strip_def isspace_def fx_loads_def fx_obj_text_def
      parse_error_prefix_def nl_def)

text \<open>
  Claim C10. When the whole trimmed text parses to a value that is not a
  \<^verbatim>\<open>dict\<close>, \<^verbatim>\<open>find_json_in_text\<close> returns that value: its result need not be a
  mapping.
\<close>

theorem extractor_returns_non_object:
  assumes "loads (strip text) = Inr v" and "\<not> is_dict v"
  shows "find_json_in_text loads text = Inr v \<and> \<not> is_dict v"
  using assms by (simp add: find_json_in_text_def)

text \<open>The text \<^verbatim>\<open>" 42 "\<close> yields the number 42.\<close>

theorem extractor_returns_non_object_witness:
  "fx_loads (strip '' 42 '') = Inr (JInt 42) \<and> \<not> is_dict (JInt 42) \<and>
   find_json_in_text fx_loads '' 42 '' = Inr (JInt 42)"
proof -
  have 1: "fx_loads (strip '' 42 '') = Inr (JInt 42)"
    by (simp add: strip_def isspace_def fx_loads_def fx_obj_text_def)
  have 2: "\<not> is_dict (JInt 42)" by (simp add: is_dict_def)
  show ?thesis
    using 1 2 extractor_returns_non_object [of fx_loads "'' 42 ''" "JInt 42"] by simp
qed

section \<open>Properties of the generation client\<close>

declare gemini_loop.simps [simp del]

lemma gemini_loop_all_fail:
  assumes fail: "\<forall>h'. \<exists>e. gemini_attempt W h' word model = Inl e"
    and b: "0 \<le> backoff"
  shows "n = nat (retries - attempt) \<Longrightarrow> 0 \<le> attempt \<Longrightarrow> attempt \<le> retries \<Longrightarrow>
    \<exists>e h0. gemini_attempt W h0 word model = Inl e \<and>
      gemini_loop W word model retries backoff attempt last_exc h =
        (Inl (GeminiFailed (retries + 1) (Some e)),
         h0 @ [EvGenerate model (prompt_for word),
               EvLog WARNING (MsgGeminiFailed (retries + 1) (retries + 1) e
                                (backoff * of_int (retries + 1))),
               EvSleep (backoff * of_int (retries + 1))]) \<and>
      length (filter is_generate h0) = length (filter is_generate h) + n"
proof (induction n arbitrary: attempt last_exc h)
  case 0
  then have eq: "attempt = retries" by simp
  obtain e where e: "gemini_attempt W h word model = Inl e" using fail by blast
  have w: "\<not> backoff * of_int (retries + 1) < 0"
    using b 0 eq by (simp add: not_less)
  have "gemini_loop W word model retries backoff retries last_exc h =
        (Inl (GeminiFailed (retries + 1) (Some e)),
         h @ [EvGenerate model (prompt_for word),
               EvLog WARNING (MsgGeminiFailed (retries + 1) (retries + 1) e
                                (backoff * of_int (retries + 1))),
               EvSleep (backoff * of_int (retries + 1))])"
    using e w
    by (simp add: gemini_loop.simps [of W word model retries backoff retries]
        gemini_loop.simps [of W word model retries backoff "retries + 1"] Let_def)
  then show ?case using e eq by auto
next
  case (Suc n)
  then have lt: "attempt < retries" by simp
  obtain e where e: "gemini_attempt W h word model = Inl e" using fail by blast
  have w: "\<not> backoff * of_int (attempt + 1) < 0"
    using b Suc.prems by (simp add: not_less)
  let ?h2 = "h @ [EvGenerate model (prompt_for word),
               EvLog WARNING (MsgGeminiFailed (attempt + 1) (retries + 1) e
                                (backoff * of_int (attempt + 1))),
               EvSleep (backoff * of_int (attempt + 1))]"
  have step: "gemini_loop W word model retries backoff attempt last_exc h =
        gemini_loop W word model retries backoff (attempt + 1) (Some e) ?h2"
    using e w lt
    by (simp add: gemini_loop.simps [of W word model retries backoff attempt] Let_def)
  have n: "n = nat (retries - (attempt + 1))" using Suc.prems by simp
  have "0 \<le> attempt + 1" "attempt + 1 \<le> retries" using Suc.prems lt by simp_all
  from Suc.IH [OF n this, of "Some e" ?h2]
  show ?case using step by auto
qed

text \<open>
  Claim C1. With a retry count and a backoff that are not negative, when every attempt
  fails, \<^verbatim>\<open>query_gemini_for_word\<close> raises the \<^verbatim>\<open>RuntimeError\<close> of line 141. The
  error names \<open>retries + 1\<close> attempts and the failure \<open>e\<close> of the last attempt, the
  one made at the history \<open>h0\<close>; and the backend has been called \<open>retries + 1\<close>
  times. With the default \<open>retries = 2\<close> that is three calls.
\<close>

theorem generate_retry_exhaustion:
  assumes "0 \<le> retries" and "0 \<le> backoff"
    and "\<forall>h'. \<exists>e. gemini_attempt W h' word model = Inl e"
  shows "\<exists>e h0. gemini_attempt W h0 word model = Inl e \<and>
      query_gemini_for_word W word model retries backoff h =
        (Inl (GeminiFailed (retries + 1) (Some e)),
         h0 @ [EvGenerate model (prompt_for word),
               EvLog WARNING (MsgGeminiFailed (retries + 1) (retries + 1) e
                                (backoff * of_int (retries + 1))),
               EvSleep (backoff * of_int (retries + 1))]) \<and>
      int (length (filter is_generate (h0 @ [EvGenerate model (prompt_for word)]))) =
        int (length (filter is_generate h)) + (retries + 1)"
proof -
  from gemini_loop_all_fail [OF assms(3) assms(2) refl, of 0 retries None h] assms(1)
  obtain e h0 where
    "gemini_attempt W h0 word model = Inl e"
    "gemini_loop W word model retries backoff 0 None h =
        (Inl (GeminiFailed (retries + 1) (Some e)),
         h0 @ [EvGenerate model (prompt_for word),
               EvLog WARNING (MsgGeminiFailed (retries + 1) (retries + 1) e
                                (backoff * of_int (retries + 1))),
               EvSleep (backoff * of_int (retries + 1))])"
    "length (filter is_generate h0) = length (filter is_generate h) + nat (retries - 0)"
    by auto
  then show ?thesis using assms(1)
    by (auto simp: query_gemini_for_word_def)
qed

lemma fx_down_attempt:
  "gemini_attempt fx_world_down h word model =
     Inl (LibError (if length (filter is_generate h) = 2
                    then ''third call failed'' else ''earlier call failed''))"
  by (simp add: gemini_attempt_def fx_world_down_def)

text \<open>
  Claim C3, at the defaults against a backend that is down. The three attempts are
  followed by three sleeps, of 1, 2 and 3 seconds: the handler of lines 134 to 138
  sleeps after the third and last attempt too, and the error is raised only then. The
  warning of line 137 announces a retry that does not come.
\<close>

theorem generate_sleeps_after_final_attempt:
  "fst (query_gemini_for_word fx_world_down ''cat'' DEFAULT_GEMINI_MODEL 2 1 []) =
     Inl (GeminiFailed 3 (Some (LibError ''third call failed''))) \<and>
   length (filter is_generate
     (snd (query_gemini_for_word fx_world_down ''cat'' DEFAULT_GEMINI_MODEL 2 1 []))) = 3 \<and>
   filter is_sleep (snd (query_gemini_for_word fx_world_down ''cat'' DEFAULT_GEMINI_MODEL 2 1 [])) =
     [EvSleep 1, EvSleep 2, EvSleep 3] \<and>
   last (snd (query_gemini_for_word fx_world_down ''cat'' DEFAULT_GEMINI_MODEL 2 1 [])) = EvSleep 3"
  by (simp add: query_gemini_for_word_def gemini_loop.simps fx_down_attempt Let_def)

text \<open>The defaults, \<open>retries = 2\<close> and \<open>backoff = 1\<close>, against a backend that is down.\<close>

theorem generate_retry_exhaustion_witness:
  "(0::int) \<le> 2 \<and> (0::real) \<le> 1 \<and>
   (\<forall>h'. \<exists>e. gemini_attempt fx_world_down h' ''cat'' DEFAULT_GEMINI_MODEL = Inl e) \<and>
   (\<exists>e h0. gemini_attempt fx_world_down h0 ''cat'' DEFAULT_GEMINI_MODEL = Inl e \<and>
      query_gemini_for_word fx_world_down ''cat'' DEFAULT_GEMINI_MODEL 2 1 [] =
        (Inl (GeminiFailed 3 (Some e)),
         h0 @ [EvGenerate DEFAULT_GEMINI_MODEL (prompt_for ''cat''),
               EvLog WARNING (MsgGeminiFailed 3 3 e 3),
               EvSleep 3]) \<and>
      int (length (filter is_generate (h0 @ [EvGenerate DEFAULT_GEMINI_MODEL (prompt_for ''cat'')]))) = 3)"
proof -
  have a: "\<forall>h'. \<exists>e. gemini_attempt fx_world_down h' ''cat'' DEFAULT_GEMINI_MODEL = Inl e"
    by (simp add: fx_down_attempt)
  show ?thesis
    using a generate_retry_exhaustion [of 2 1 fx_world_down "''cat''" DEFAULT_GEMINI_MODEL "[]"]
    by simp
qed












section \<open>Properties of the note store client\<close>

lemma note_exists_cases:
  "note_exists W word deck model h =
     (case note_exists_try W h (find_payload word deck model) of
        Inr b \<Rightarrow> (b, h @ [EvPost ANKI_CONNECT_URL (find_payload word deck model) 10])
      | Inl e \<Rightarrow> (False, h @ [EvPost ANKI_CONNECT_URL (find_payload word deck model) 10,
                              EvLog ERROR (MsgNoteExistsError word e)]))"
  by (simp add: note_exists_def Let_def split: sum.splits)



lemma post_kinds [simp]:
  "\<not> is_add_note (EvPost u (find_payload w d m) t)"
  "is_find_notes (EvPost u (find_payload w d m) t)"
  "is_add_note (EvPost u (add_payload f d m) t)"
  "\<not> is_find_notes (EvPost u (add_payload f d m) t)"
  by (simp_all add: is_add_note_def is_find_notes_def is_post_action_def
      find_payload_def add_payload_def)

lemma other_kinds [simp]:
  "\<not> is_add_note (EvGenerate gm p)" "\<not> is_add_note (EvSleep x)" "\<not> is_add_note (EvLog l msg)"
  "\<not> is_find_notes (EvGenerate gm p)" "\<not> is_find_notes (EvSleep x)" "\<not> is_find_notes (EvLog l msg)"
  by (simp_all add: is_add_note_def is_find_notes_def is_post_action_def)

lemma fx_down_note_exists:
  "note_exists fx_world_down word deck model h =
     (False, h @ [EvPost ANKI_CONNECT_URL (find_payload word deck model) 10,
                  EvLog ERROR (MsgNoteExistsError word (LibError ''ConnectionError''))])"
  by (simp add: note_exists_cases note_exists_try_def fx_world_down_def)

lemma fx_dup_note_exists:
  "note_exists fx_world_dup word deck model h =
     (True, h @ [EvPost ANKI_CONNECT_URL (find_payload word deck model) 10])"
  by (simp add: note_exists_cases note_exists_try_def fx_world_dup_def dict_get_def py_len_def)

lemma fx_ok_note_exists:
  "note_exists fx_world_ok word deck model h =
     (False, h @ [EvPost ANKI_CONNECT_URL (find_payload word deck model) 10])"
  by (simp add: note_exists_cases note_exists_try_def fx_world_ok_def dict_get_def py_len_def)


section \<open>Properties of the pipeline driver\<close>



lemma note_exists_events:
  "snd (note_exists W word deck model h) =
     h @ [EvPost ANKI_CONNECT_URL (find_payload word deck model) 10] \<or>
   (\<exists>e. snd (note_exists W word deck model h) =
     h @ [EvPost ANKI_CONNECT_URL (find_payload word deck model) 10,
          EvLog ERROR (MsgNoteExistsError word e)])"
  by (simp add: note_exists_cases split: sum.splits)








lemma gemini_loop_extends:
  "\<exists>tr. snd (gemini_loop W word model retries backoff attempt last_exc h) = h @ tr"
proof (induction W word model retries backoff attempt last_exc h rule: gemini_loop.induct)
  case (1 W word model retries backoff attempt last_exc h)
  show ?case
  proof (cases "attempt \<le> retries")
    case False
    then show ?thesis
      by (simp add: gemini_loop.simps [of W word model retries backoff attempt])
  next
    case le: True
    show ?thesis
    proof (cases "gemini_attempt W h word model")
      case (Inr r)
      then show ?thesis using le
        by (simp add: gemini_loop.simps [of W word model retries backoff attempt] Let_def)
    next
      case (Inl e)
      show ?thesis
      proof (cases "backoff * of_int (attempt + 1) < 0")
        case True
        then show ?thesis using le Inl
          by (simp add: gemini_loop.simps [of W word model retries backoff attempt] Let_def)
      next
        case False
        have "gemini_loop W word model retries backoff attempt last_exc h =
              gemini_loop W word model retries backoff (attempt + 1) (Some e)
                ((h @ [EvGenerate model (prompt_for word)] @
                 [EvLog WARNING (MsgGeminiFailed (attempt + 1) (retries + 1) e
                     (backoff * of_int (attempt + 1)))]) @
                 [EvSleep (backoff * of_int (attempt + 1))])"
          using le Inl False
          by (simp add: gemini_loop.simps [of W word model retries backoff attempt] Let_def)
        then show ?thesis
          using "1.IH" [OF le refl refl Inl refl refl False] by auto
      qed
    qed
  qed
qed

lemma generate_and_add_pause:
  "\<exists>tr. generate_and_add W deck model_name gemini_model dry_run row_number word h =
         h @ tr @ [EvSleep 1]"
proof -
  let ?h2 = "h @ [EvLog INFO (MsgProcessingRow row_number word)]"
  obtain r h' where q: "query_gemini_for_word W word gemini_model 2 1 ?h2 = (r, h')"
    by (cases "query_gemini_for_word W word gemini_model 2 1 ?h2")
  obtain tr where tr: "h' = ?h2 @ tr"
    using gemini_loop_extends [of W word gemini_model 2 1 0 None ?h2] q
    by (auto simp: query_gemini_for_word_def)
  show ?thesis
  proof (cases r)
    case (Inl e)
    then show ?thesis using q tr by (simp add: generate_and_add_def Let_def)
  next
    case (Inr gemini)
    then show ?thesis using q tr
      by (simp add: generate_and_add_def add_anki_note_def Let_def split: sum.splits json.splits)
  qed
qed

text \<open>
  Claim C2, as amended. The next row is taken up after the events of this one. For a
  word whose existence check says no, these events end with the one-second sleep of line
  199, whether the word was added, previewed or failed. For a word whose existence check
  says yes, the \<^verbatim>\<open>continue\<close> of line 176 leaves the turn before line 199: the row
  adds no sleep.
\<close>

theorem pause_after_word:
  assumes "row = cell # cells" and "strip cell \<noteq> []"
  shows "process_rows W deck model_name gemini_model dry_run row_number (row # rows) h =
           process_rows W deck model_name gemini_model dry_run (row_number + 1) rows
             (process_row W deck model_name gemini_model dry_run (row_number + 1) row h) \<and>
         (\<not> fst (note_exists W (strip cell) deck model_name h) \<longrightarrow>
            (\<exists>tr. process_row W deck model_name gemini_model dry_run (row_number + 1) row h =
                    h @ tr @ [EvSleep 1])) \<and>
         (fst (note_exists W (strip cell) deck model_name h) \<longrightarrow>
            filter is_sleep (process_row W deck model_name gemini_model dry_run (row_number + 1) row h) =
            filter is_sleep h)"
proof -
  obtain b h1 where ne: "note_exists W (strip cell) deck model_name h = (b, h1)"
    by (cases "note_exists W (strip cell) deck model_name h")
  from note_exists_events [of W "strip cell" deck model_name h] ne
  obtain t1 where h1: "h1 = h @ t1" and t1: "filter is_sleep t1 = []"
    by auto
  show ?thesis
  proof (cases b)
    case True
    then show ?thesis using assms ne h1 t1 by (simp add: process_row_def)
  next
    case False
    obtain tr where "generate_and_add W deck model_name gemini_model dry_run (row_number + 1)
                       (strip cell) h1 = h1 @ tr @ [EvSleep 1]"
      using generate_and_add_pause by blast
    then have "process_row W deck model_name gemini_model dry_run (row_number + 1) row h =
               h @ (t1 @ tr) @ [EvSleep 1]"
      using assms ne h1 False by (simp add: process_row_def)
    then show ?thesis using ne False by auto
  qed
qed

text \<open>
  Claim C6. For a word that \<^verbatim>\<open>note_exists\<close> reports as present, the row adds the
  existence check and the log record of line 175 and nothing else: no backend call, no
  \<^verbatim>\<open>addNote\<close> call. The loop goes on with the next row.
\<close>

theorem duplicate_skip:
  assumes "row = cell # cells" and "strip cell \<noteq> []"
    and "fst (note_exists W (strip cell) deck model_name h)"
  shows "process_row W deck model_name gemini_model dry_run row_number row h =
           h @ [EvPost ANKI_CONNECT_URL (find_payload (strip cell) deck model_name) 10,
                EvLog INFO (MsgSkipping (strip cell) deck)] \<and>
         filter is_generate (process_row W deck model_name gemini_model dry_run row_number row h) =
           filter is_generate h \<and>
         filter is_add_note (process_row W deck model_name gemini_model dry_run row_number row h) =
           filter is_add_note h \<and>
         process_rows W deck model_name gemini_model dry_run row_number (row # rows) h =
           process_rows W deck model_name gemini_model dry_run (row_number + 1) rows
             (h @ [EvPost ANKI_CONNECT_URL (find_payload (strip cell) deck model_name) 10,
                   EvLog INFO (MsgSkipping (strip cell) deck)])"
proof -
  have ne: "note_exists W (strip cell) deck model_name h =
        (True, h @ [EvPost ANKI_CONNECT_URL (find_payload (strip cell) deck model_name) 10])"
    using assms(3) by (auto simp: note_exists_cases split: sum.splits)
  have "process_row W deck model_name gemini_model dry_run rn row h =
           h @ [EvPost ANKI_CONNECT_URL (find_payload (strip cell) deck model_name) 10,
                EvLog INFO (MsgSkipping (strip cell) deck)]" for rn
    using assms(1,2) ne by (simp add: process_row_def Let_def)
  then show ?thesis by simp
qed





lemma strip_examples:
  "strip ''resilience'' = ''resilience''" "strip ''buoyant'' = ''buoyant''"
  "strip ''  '' = []" "strip [] = []" "strip ''cat'' = ''cat''" "strip ''dog'' = ''dog''"
  by (simp_all add: strip_def isspace_def)


lemma fx_dup_process_row:
  "strip cell \<noteq> [] \<Longrightarrow>
   process_row fx_world_dup deck model_name gemini_model dry_run row_number (cell # cells) h =
     h @ [EvPost ANKI_CONNECT_URL (find_payload (strip cell) deck model_name) 10,
          EvLog INFO (MsgSkipping (strip cell) deck)]"
  by (simp add: process_row_def fx_dup_note_exists Let_def)

text \<open>
  Claim C2 as it is stated asks for the sleep after a skipped word too. With a note
  store that knows both \<^verbatim>\<open>cat\<close> and \<^verbatim>\<open>dog\<close>, the run is two existence checks
  and two log records, and no sleep at all.
\<close>

theorem pause_after_skipped_word_counterexample:
  "process_csv_file fx_world_dup [[''cat''], [''dog'']] ''EnglishAI'' ''EnglishAI''
     DEFAULT_GEMINI_MODEL False [] =
     [EvPost ANKI_CONNECT_URL (find_payload ''cat'' ''EnglishAI'' ''EnglishAI'') 10,
      EvLog INFO (MsgSkipping ''cat'' ''EnglishAI''),
      EvPost ANKI_CONNECT_URL (find_payload ''dog'' ''EnglishAI'' ''EnglishAI'') 10,
      EvLog INFO (MsgSkipping ''dog'' ''EnglishAI'')] \<and>
   filter is_sleep
     (process_csv_file fx_world_dup [[''cat''], [''dog'']] ''EnglishAI'' ''EnglishAI''
        DEFAULT_GEMINI_MODEL False []) = []"
  by (simp add: process_csv_file_def fx_dup_process_row strip_examples)

text \<open>The word \<^verbatim>\<open>cat\<close>: added, failed, and skipped.\<close>

theorem pause_after_word_witness:
  "strip ''cat'' \<noteq> [] \<and>
   \<not> fst (note_exists fx_world_ok (strip ''cat'') ''EnglishAI'' ''EnglishAI'' []) \<and>
   (\<exists>tr. process_row fx_world_ok ''EnglishAI'' ''EnglishAI'' DEFAULT_GEMINI_MODEL False (0 + 1) [''cat''] [] =
      [] @ tr @ [EvSleep 1]) \<and>
   \<not> fst (note_exists fx_world_down (strip ''cat'') ''EnglishAI'' ''EnglishAI'' []) \<and>
   (\<exists>tr. process_row fx_world_down ''EnglishAI'' ''EnglishAI'' DEFAULT_GEMINI_MODEL False (0 + 1) [''cat''] [] =
      [] @ tr @ [EvSleep 1]) \<and>
   fst (note_exists fx_world_dup (strip ''cat'') ''EnglishAI'' ''EnglishAI'' []) \<and>
   filter is_sleep
     (process_row fx_world_dup ''EnglishAI'' ''EnglishAI'' DEFAULT_GEMINI_MODEL False (0 + 1) [''cat''] []) =
     filter is_sleep []"
proof -
  have s: "strip ''cat'' \<noteq> []" by (simp add: strip_examples)
  show ?thesis
    using s
      pause_after_word [where W = fx_world_ok and row = "[''cat'']" and cell = "''cat''"
        and cells = "[]" and deck = "''EnglishAI''" and model_name = "''EnglishAI''"
        and gemini_model = DEFAULT_GEMINI_MODEL and dry_run = False and row_number = 0
        and rows = "[]" and h = "[]", OF refl s]
      pause_after_word [where W = fx_world_down and row = "[''cat'']" and cell = "''cat''"
        and cells = "[]" and deck = "''EnglishAI''" and model_name = "''EnglishAI''"
        and gemini_model = DEFAULT_GEMINI_MODEL and dry_run = False and row_number = 0
        and rows = "[]" and h = "[]", OF refl s]
      pause_after_word [where W = fx_world_dup and row = "[''cat'']" and cell = "''cat''"
        and cells = "[]" and deck = "''EnglishAI''" and model_name = "''EnglishAI''"
        and gemini_model = DEFAULT_GEMINI_MODEL and dry_run = False and row_number = 0
        and rows = "[]" and h = "[]", OF refl s]
    by (simp add: fx_ok_note_exists fx_down_note_exists fx_dup_note_exists)
qed

text \<open>The word \<^verbatim>\<open>cat\<close> against a note store that finds a note for it.\<close>

theorem duplicate_skip_witness:
  "strip ''cat'' \<noteq> [] \<and>
   fst (note_exists fx_world_dup (strip ''cat'') ''EnglishAI'' ''EnglishAI'' []) \<and>
   process_row fx_world_dup ''EnglishAI'' ''EnglishAI'' DEFAULT_GEMINI_MODEL False 1 [''cat''] [] =
     [EvPost ANKI_CONNECT_URL (find_payload ''cat'' ''EnglishAI'' ''EnglishAI'') 10,
      EvLog INFO (MsgSkipping ''cat'' ''EnglishAI'')] \<and>
   filter is_generate
     (process_row fx_world_dup ''EnglishAI'' ''EnglishAI'' DEFAULT_GEMINI_MODEL False 1 [''cat''] []) = [] \<and>
   filter is_add_note
     (process_row fx_world_dup ''EnglishAI'' ''EnglishAI'' DEFAULT_GEMINI_MODEL False 1 [''cat''] []) = []"
proof -
  have s: "strip ''cat'' \<noteq> []" by (simp add: strip_examples)
  have f: "fst (note_exists fx_world_dup (strip ''cat'') ''EnglishAI'' ''EnglishAI'' [])"
    by (simp add: fx_dup_note_exists)
  show ?thesis
    using s f
      duplicate_skip [where W = fx_world_dup and row = "[''cat'']" and cell = "''cat''"
        and cells = "[]" and deck = "''EnglishAI''" and model_name = "''EnglishAI''"
        and gemini_model = DEFAULT_GEMINI_MODEL and dry_run = False and row_number = 1
        and rows = "[]" and h = "[]", OF refl s f]
    by (simp add: strip_examples)
qed

end
